theory Spec2Isabelle
  imports Main "HOL-Library.Sublist"
begin

section \<open>Python values\<close>

text \<open>
  A Python \<open>str\<close> is a sequence of code points and \<open>len\<close> counts code points, so a
  string is a list of code-point numbers. \<open>lit\<close> turns an ASCII literal of the source
  into that list.
\<close>

type_synonym pystr = "nat list"

definition lit :: "string \<Rightarrow> pystr" where
  "lit s = map of_char s"

text \<open>
  The values \<open>response.json()\<close> can produce. A dict is its list of items in insertion
  order (keys distinct). JSON numbers are integers here; a fractional number behaves as
  an integer does in every operation \<open>main\<close> applies to it (truthiness by being non-zero,
  no \<open>len\<close>, no iteration, no subscripting).
\<close>

datatype pyval =
    PNone
  | PBool bool
  | PInt int
  | PStr pystr
  | PList "pyval list"
  | PDict "(pystr \<times> pyval) list"

text \<open>
  The exception classes the source's handlers tell apart. \<open>RequestException\<close> stands for
  \<open>requests.exceptions.RequestException\<close> and its subclasses (\<open>HTTPError\<close>,
  \<open>ConnectionError\<close>, \<open>Timeout\<close>, the \<open>JSONDecodeError\<close> of \<open>requests\<close>),
  \<open>SMTPException\<close> for \<open>smtplib.SMTPException\<close> and its subclasses, \<open>OtherException\<close>
  for every other subclass of \<open>Exception\<close> a library call can raise. All of them are
  instances of \<open>Exception\<close>; \<open>KeyboardInterrupt\<close> and \<open>SystemExit\<close> are not modelled.
\<close>

datatype exn =
    RequestException
  | SMTPException
  | AttributeError
  | KeyError
  | TypeError
  | OtherException

text \<open>Truth value testing (\<open>if not articles\<close>, \<open>if summary\<close>).\<close>

fun truthy :: "pyval \<Rightarrow> bool" where
  "truthy PNone = False"
| "truthy (PBool b) = b"
| "truthy (PInt i) = (i \<noteq> 0)"
| "truthy (PStr s) = (s \<noteq> [])"
| "truthy (PList xs) = (xs \<noteq> [])"
| "truthy (PDict kvs) = (kvs \<noteq> [])"

text \<open>\<open>len(v)\<close>: defined on strings, lists and dicts, \<open>TypeError\<close> otherwise.\<close>

fun py_len :: "pyval \<Rightarrow> exn + nat" where
  "py_len (PStr s) = Inr (length s)"
| "py_len (PList xs) = Inr (length xs)"
| "py_len (PDict kvs) = Inr (length kvs)"
| "py_len v = Inl TypeError"

text \<open>
  \<open>for article in v\<close>: a list yields its elements, a string its characters (each a
  string of length one), a dict its keys; anything else is not iterable.
\<close>

fun py_iter :: "pyval \<Rightarrow> exn + pyval list" where
  "py_iter (PList xs) = Inr xs"
| "py_iter (PStr s) = Inr (map (\<lambda>c. PStr [c]) s)"
| "py_iter (PDict kvs) = Inr (map (\<lambda>kv. PStr (fst kv)) kvs)"
| "py_iter v = Inl TypeError"

text \<open>
  \<open>v[key]\<close> with a string key: a dict looks the key up and raises \<open>KeyError\<close> when it is
  missing; a string or a list wants an integer index and every other value is not
  subscriptable, both \<open>TypeError\<close>.
\<close>

fun py_getitem :: "pyval \<Rightarrow> pystr \<Rightarrow> exn + pyval" where
  "py_getitem (PDict kvs) key =
     (case map_of kvs key of None \<Rightarrow> Inl KeyError | Some x \<Rightarrow> Inr x)"
| "py_getitem v key = Inl TypeError"

text \<open>
  \<open>v.get(key, default)\<close>: only a dict has the method; on any other value the attribute
  lookup raises \<open>AttributeError\<close>.
\<close>

fun py_get :: "pyval \<Rightarrow> pystr \<Rightarrow> pyval \<Rightarrow> exn + pyval" where
  "py_get (PDict kvs) key dflt =
     Inr (case map_of kvs key of None \<Rightarrow> dflt | Some x \<Rightarrow> x)"
| "py_get v key dflt = Inl AttributeError"

text \<open>\<open>str(n)\<close> of an integer: its decimal digits, with a minus sign when negative.\<close>

fun decimal :: "nat \<Rightarrow> pystr" where
  "decimal n = (if n < 10 then [48 + n] else decimal (n div 10) @ [48 + n mod 10])"

declare decimal.simps [simp del]

definition py_str_int :: "int \<Rightarrow> pystr" where
  "py_str_int i = (if i < 0 then 45 # decimal (nat (- i)) else decimal (nat i))"


text \<open>
  A replacement field \<open>{v}\<close> of an f-string: a \<open>str\<close> is inserted as it is; for any other
  value Python inserts \<open>str(v)\<close>, taken here as the parameter \<open>other\<close>.
\<close>

fun py_format :: "(pyval \<Rightarrow> pystr) \<Rightarrow> pyval \<Rightarrow> pystr" where
  "py_format other (PStr s) = s"
| "py_format other v = other v"

section \<open>Configuration, messages, the outside world\<close>

text \<open>The settings module \<open>config\<close> imported by main.py.\<close>

record config =
  GNEWS_API_KEY :: pystr
  OPENAI_API_KEY :: pystr
  SENDER_EMAIL :: pystr
  SENDER_APP_PASSWORD :: pystr
  RECIPIENT_EMAIL :: pystr

definition NEWS_TOPIC :: pystr where
  "NEWS_TOPIC = lit ''artificial intelligence''"

definition MAX_ARTICLES :: int where
  "MAX_ARTICLES = 5"

text \<open>The dict appended to \<open>summaries_list\<close> by \<open>main\<close> and read by \<open>send_email\<close>.\<close>

record digest_entry =
  title :: pyval
  summary :: pystr
  url :: pyval

text \<open>The \<open>EmailMessage\<close> built by \<open>send_email\<close>.\<close>

record message =
  msg_subject :: pystr
  msg_from :: pystr
  msg_to :: pystr
  msg_text :: pystr
  msg_html :: pystr

text \<open>The outcome of \<open>requests.get(url)\<close>: it raises, or it returns a response with a
  status code and with what \<open>response.json()\<close> will do (raise, or return a value).\<close>

datatype http_result =
    Get_raises exn
  | Response nat "exn + pyval"

datatype client = OpenAI_client

text \<open>
  Everything the run reads from outside. The scraping of an article and the model's
  completion are indexed by the position of the article in the run, since two requests
  for one URL need not agree.
  \<^item> \<open>openai_init\<close>: the exception \<open>OpenAI(api_key=...)\<close> raises at start-up, if any;
  \<^item> \<open>http_get\<close>: \<open>requests.get\<close>;
  \<^item> \<open>page_at i u\<close>: \<open>Article(u)\<close>, \<open>download()\<close>, \<open>parse()\<close> and \<open>.text\<close> for
    article \<open>i\<close>: an exception or the extracted text;
  \<^item> \<open>completion_at i text\<close>: \<open>client.chat.completions.create(...)\<close> followed by
    \<open>.choices[0].message.content\<close> for article \<open>i\<close>: an exception, or the content,
    which the API types as an optional string;
  \<^item> \<open>smtp_session m\<close>: the exception raised inside the SMTP block (context, connect,
    login, send), if any;
  \<^item> \<open>str_other\<close>: \<open>str(v)\<close> for a value that is not a string.
\<close>

record env =
  openai_init :: "exn option"
  http_get :: "pystr \<Rightarrow> http_result"
  page_at :: "nat \<Rightarrow> pyval \<Rightarrow> exn + pystr"
  completion_at :: "nat \<Rightarrow> pystr \<Rightarrow> exn + pystr option"
  smtp_session :: "message \<Rightarrow> exn option"
  str_other :: "pyval \<Rightarrow> pystr"

text \<open>
  What a run does that can be observed from outside: the calls of the three stages and
  their requests to the network. Console output is left out: \<open>print\<close> changes no
  control flow; the one \<open>print\<close> whose argument can raise (\<open>len(articles)\<close>) is kept as
  that \<open>len\<close>.
\<close>

datatype event =
    Call_fetch_news pystr int
  | Http_get pystr
  | Call_summarize_article pyval
  | Download pyval
  | Model_call pystr
  | Call_send_email "digest_entry list"
  | Smtp_session message

fun summarizer_calls :: "event list \<Rightarrow> pyval list" where
  "summarizer_calls [] = []"
| "summarizer_calls (Call_summarize_article u # t) = u # summarizer_calls t"
| "summarizer_calls (e # t) = summarizer_calls t"

fun model_calls :: "event list \<Rightarrow> pystr list" where
  "model_calls [] = []"
| "model_calls (Model_call x # t) = x # model_calls t"
| "model_calls (e # t) = model_calls t"

fun sender_calls :: "event list \<Rightarrow> digest_entry list list" where
  "sender_calls [] = []"
| "sender_calls (Call_send_email es # t) = es # sender_calls t"
| "sender_calls (e # t) = sender_calls t"

fun smtp_messages :: "event list \<Rightarrow> message list" where
  "smtp_messages [] = []"
| "smtp_messages (Smtp_session m # t) = m # smtp_messages t"
| "smtp_messages (e # t) = smtp_messages t"

section \<open>Start-up: the model client\<close>

text \<open>Lines 23 to 27: a failing constructor leaves \<open>client = None\<close>; the run goes on.\<close>

definition init_client :: "env \<Rightarrow> client option" where
  "init_client env = (case openai_init env of None \<Rightarrow> Some OpenAI_client | Some e \<Rightarrow> None)"

section \<open>Step 1: fetch_news\<close>

definition request_url :: "config \<Rightarrow> pystr \<Rightarrow> int \<Rightarrow> pystr" where
  "request_url cfg topic max_articles =
     lit ''https://gnews.io/api/v4/search?''
     @ lit ''q='' @ topic @ lit ''&''
     @ lit ''max='' @ py_str_int max_articles @ lit ''&''
     @ lit ''lang=en&''
     @ lit ''apikey='' @ GNEWS_API_KEY cfg"

text \<open>
  The body of the \<open>try\<close>. \<open>raise_for_status\<close> raises \<open>HTTPError\<close> for a status from 400
  to 599 and for no other.
\<close>

definition fetch_try :: "env \<Rightarrow> pystr \<Rightarrow> exn + pyval" where
  "fetch_try env u =
     (case http_get env u of
        Get_raises e \<Rightarrow> Inl e
      | Response status body \<Rightarrow>
          if 400 \<le> status \<and> status < 600 then Inl RequestException
          else (case body of
                  Inl e \<Rightarrow> Inl e
                | Inr data \<Rightarrow> py_get data (lit ''articles'') (PList [])))"

text \<open>The handler is \<open>except requests.exceptions.RequestException\<close>: nothing else is caught.\<close>

definition fetch_news :: "config \<Rightarrow> env \<Rightarrow> pystr \<Rightarrow> int \<Rightarrow> event list \<times> (exn + pyval)" where
  "fetch_news cfg env topic max_articles =
     (let u = request_url cfg topic max_articles
      in ([Call_fetch_news topic max_articles, Http_get u],
          case fetch_try env u of
            Inl e \<Rightarrow> if e = RequestException then Inr (PList []) else Inl e
          | Inr v \<Rightarrow> Inr v))"

section \<open>Step 2: summarize_article\<close>

text \<open>
  The body of the \<open>try\<close>, with the scraping and the completion of this call as
  parameters: scrape, give up under 250 characters, give up without a client, ask the
  model.
\<close>

definition summarize_try ::
  "client option \<Rightarrow> (pyval \<Rightarrow> exn + pystr) \<Rightarrow> (pystr \<Rightarrow> exn + pystr option) \<Rightarrow> pyval
   \<Rightarrow> event list \<times> (exn + pystr option)" where
  "summarize_try cl page complete article_url =
     (case page article_url of
        Inl e \<Rightarrow> ([Download article_url], Inl e)
      | Inr article_text \<Rightarrow>
          if length article_text < 250 then ([Download article_url], Inr None)
          else if cl = None then ([Download article_url], Inr None)
          else ([Download article_url, Model_call article_text], complete article_text))"

text \<open>The handler is \<open>except Exception\<close>: every exception becomes \<open>None\<close>.\<close>

definition summarize_article ::
  "client option \<Rightarrow> (pyval \<Rightarrow> exn + pystr) \<Rightarrow> (pystr \<Rightarrow> exn + pystr option) \<Rightarrow> pyval
   \<Rightarrow> event list \<times> (exn + pystr option)" where
  "summarize_article cl page complete article_url =
     (case summarize_try cl page complete article_url of
        (t, Inl e) \<Rightarrow> (Call_summarize_article article_url # t, Inr None)
      | (t, Inr r) \<Rightarrow> (Call_summarize_article article_url # t, Inr r))"

section \<open>Step 3: send_email\<close>

text \<open>The bullet of the plain-text body, as the source file spells it: the three code
  points U+00E2, U+20AC, U+00A2, then a space.\<close>

definition bullet :: pystr where
  "bullet = [226, 8364, 162, 32]"

text \<open>One pass of the \<open>for\<close> loop: both bodies grow by the entry's text.\<close>

definition render_step ::
  "(pyval \<Rightarrow> pystr) \<Rightarrow> pystr \<times> pystr \<Rightarrow> digest_entry \<Rightarrow> pystr \<times> pystr" where
  "render_step other bodies item =
     (fst bodies
        @ bullet @ py_format other (title item) @ [10]
        @ summary item @ [10]
        @ lit ''Read more: '' @ py_format other (url item) @ [10, 10],
      snd bodies
        @ lit ''<li>''
        @ lit ''<strong>'' @ py_format other (title item) @ lit ''</strong><br>''
        @ lit ''<p>'' @ summary item @ lit ''</p>''
        @ lit ''<a href='' @ [39] @ py_format other (url item) @ [39] @ lit ''>Read more</a>''
        @ lit ''</li><br>'')"

text \<open>
  The subject, the two bodies, the message, then the SMTP block. Building the
  \<open>EmailMessage\<close> from these strings is taken not to raise. The block has the handlers
  \<open>except smtplib.SMTPException\<close> and \<open>except Exception\<close>: whatever it raises is
  caught and the function returns.
\<close>

definition send_email :: "config \<Rightarrow> env \<Rightarrow> digest_entry list \<Rightarrow> event list \<times> (exn + unit)" where
  "send_email cfg env summaries_list =
     (let subject = lit ''Your Daily AI News Update ('' @ py_str_int (int (length summaries_list))
                      @ lit '' stories)'';
          bodies = foldl (render_step (str_other env))
                     (lit ''Here is your daily news summary:'' @ [10, 10],
                      lit ''<html><body><h2>Here is your daily news summary:</h2><ul>'')
                     summaries_list;
          text_body = fst bodies;
          html_body = snd bodies @ lit ''</ul></body></html>'';
          msg = \<lparr>msg_subject = subject, msg_from = SENDER_EMAIL cfg, msg_to = RECIPIENT_EMAIL cfg,
                 msg_text = text_body, msg_html = html_body\<rparr>
      in ([Call_send_email summaries_list, Smtp_session msg],
          case smtp_session env msg of
            None \<Rightarrow> Inr ()
          | Some e \<Rightarrow> Inr ()))"

section \<open>The orchestrator: main\<close>

text \<open>One pass of the loop over the articles, for the article at position \<open>i\<close>.
  \<open>if summary:\<close> holds for a string that is not empty. The \<open>print\<close> of the title
  between the two subscripts and the call is console output and is left out as the
  other \<open>print\<close>s are: it is taken to succeed, as it does whenever standard output can
  encode the title.\<close>

definition loop_body ::
  "env \<Rightarrow> client option \<Rightarrow> nat \<Rightarrow> pyval \<Rightarrow> digest_entry list
   \<Rightarrow> event list \<times> (exn + digest_entry list)" where
  "loop_body env cl i article summaries_list =
     (case py_getitem article (lit ''title'') of
        Inl e \<Rightarrow> ([], Inl e)
      | Inr t \<Rightarrow>
          (case py_getitem article (lit ''url'') of
             Inl e \<Rightarrow> ([], Inl e)
           | Inr u \<Rightarrow>
               (case summarize_article cl (page_at env i) (completion_at env i) u of
                  (tr, Inl e) \<Rightarrow> (tr, Inl e)
                | (tr, Inr None) \<Rightarrow> (tr, Inr summaries_list)
                | (tr, Inr (Some s)) \<Rightarrow>
                    if s \<noteq> []
                    then (tr, Inr (summaries_list @ [\<lparr>title = t, summary = s, url = u\<rparr>]))
                    else (tr, Inr summaries_list))))"

fun summarize_loop ::
  "env \<Rightarrow> client option \<Rightarrow> nat \<Rightarrow> pyval list \<Rightarrow> digest_entry list
   \<Rightarrow> event list \<times> (exn + digest_entry list)" where
  "summarize_loop env cl i [] summaries_list = ([], Inr summaries_list)"
| "summarize_loop env cl i (article # rest) summaries_list =
     (case loop_body env cl i article summaries_list of
        (tr, Inl e) \<Rightarrow> (tr, Inl e)
      | (tr, Inr acc) \<Rightarrow>
          (case summarize_loop env cl (Suc i) rest acc of
             (tr', r) \<Rightarrow> (tr @ tr', r)))"

definition main :: "config \<Rightarrow> env \<Rightarrow> client option \<Rightarrow> event list \<times> (exn + unit)" where
  "main cfg env cl =
     (case fetch_news cfg env NEWS_TOPIC MAX_ARTICLES of
        (t1, Inl e) \<Rightarrow> (t1, Inl e)
      | (t1, Inr articles) \<Rightarrow>
          if \<not> truthy articles then (t1, Inr ())
          else (case py_len articles of
                  Inl e \<Rightarrow> (t1, Inl e)
                | Inr n \<Rightarrow>
                    (case py_iter articles of
                       Inl e \<Rightarrow> (t1, Inl e)
                     | Inr items \<Rightarrow>
                         (case summarize_loop env cl 0 items [] of
                            (t2, Inl e) \<Rightarrow> (t1 @ t2, Inl e)
                          | (t2, Inr summaries_list) \<Rightarrow>
                              if summaries_list = [] then (t1 @ t2, Inr ())
                              else (case send_email cfg env summaries_list of
                                      (t3, r) \<Rightarrow> (t1 @ t2 @ t3, r))))))"

text \<open>The script: start-up, then \<open>main()\<close>. An uncaught exception ends the process with
  status 1, a return from \<open>main\<close> with status 0.\<close>

definition run :: "config \<Rightarrow> env \<Rightarrow> event list \<times> (exn + unit)" where
  "run cfg env = main cfg env (init_client env)"

definition exit_status :: "event list \<times> (exn + unit) \<Rightarrow> nat" where
  "exit_status r = (case snd r of Inl e \<Rightarrow> 1 | Inr u \<Rightarrow> 0)"

section \<open>The digest as the specification words it\<close>

text \<open>
  The specification describes each body as a fixed heading followed by one block per
  entry: a bulleted title, the summary and a "Read more" line in the plain text; a list
  item with the title in bold, the summary in a paragraph and a hyperlink in the HTML.
  These definitions follow those words; the theorems below relate them to the loop of
  \<open>send_email\<close>.
\<close>

definition text_header :: pystr where
  "text_header = lit ''Here is your daily news summary:'' @ [10, 10]"

definition text_item :: "(pyval \<Rightarrow> pystr) \<Rightarrow> digest_entry \<Rightarrow> pystr" where
  "text_item other e =
     bullet @ py_format other (title e) @ [10] @ summary e @ [10]
     @ lit ''Read more: '' @ py_format other (url e) @ [10, 10]"

definition html_header :: pystr where
  "html_header = lit ''<html><body><h2>Here is your daily news summary:</h2><ul>''"

definition html_item :: "(pyval \<Rightarrow> pystr) \<Rightarrow> digest_entry \<Rightarrow> pystr" where
  "html_item other e =
     lit ''<li><strong>'' @ py_format other (title e) @ lit ''</strong><br><p>''
     @ summary e @ lit ''</p><a href='' @ [39] @ py_format other (url e) @ [39]
     @ lit ''>Read more</a></li><br>''"

definition html_footer :: pystr where
  "html_footer = lit ''</ul></body></html>''"

text \<open>How often a string occurs in another: the number of positions at which it starts.\<close>

fun occurrences :: "pystr \<Rightarrow> pystr \<Rightarrow> nat" where
  "occurrences p [] = (if p = [] then 1 else 0)"
| "occurrences p (x # xs) = (if prefix p (x # xs) then 1 else 0) + occurrences p xs"

section \<open>Articles and entries as the specification words them\<close>

text \<open>
  An ArticleStub of the specification is an object with a \<open>title\<close> and a \<open>url\<close>.
  \<open>summary_at\<close> is what \<open>summarize_article\<close> returns for the stub at a position of the
  provider's list; the stub survives when that is a non-empty string, and \<open>entry_of\<close> is
  then its DigestEntry.
\<close>

definition is_stub :: "pyval \<Rightarrow> bool" where
  "is_stub a = (case a of
      PDict kvs \<Rightarrow> map_of kvs (lit ''title'') \<noteq> None \<and> map_of kvs (lit ''url'') \<noteq> None
    | _ \<Rightarrow> False)"

definition stub_field :: "string \<Rightarrow> pyval \<Rightarrow> pyval" where
  "stub_field k a = (case a of
      PDict kvs \<Rightarrow> (case map_of kvs (lit k) of Some v \<Rightarrow> v | None \<Rightarrow> PNone)
    | _ \<Rightarrow> PNone)"

definition summary_at :: "env \<Rightarrow> client option \<Rightarrow> nat \<Rightarrow> pyval \<Rightarrow> pystr option" where
  "summary_at env cl i a =
     (case snd (summarize_article cl (page_at env i) (completion_at env i)
                 (stub_field ''url'' a)) of
        Inl e \<Rightarrow> None
      | Inr r \<Rightarrow> r)"

definition survives :: "env \<Rightarrow> client option \<Rightarrow> nat \<times> pyval \<Rightarrow> bool" where
  "survives env cl ia =
     (case summary_at env cl (fst ia) (snd ia) of None \<Rightarrow> False | Some s \<Rightarrow> s \<noteq> [])"

definition entry_of :: "env \<Rightarrow> client option \<Rightarrow> nat \<times> pyval \<Rightarrow> digest_entry" where
  "entry_of env cl ia =
     \<lparr>title = stub_field ''title'' (snd ia),
      summary = (case summary_at env cl (fst ia) (snd ia) of None \<Rightarrow> [] | Some s \<Rightarrow> s),
      url = stub_field ''url'' (snd ia)\<rparr>"

text \<open>The digest of a list of stubs: the entries of those that survive, in the order of
  the list.\<close>

definition digest :: "env \<Rightarrow> client option \<Rightarrow> pyval list \<Rightarrow> digest_entry list" where
  "digest env cl items =
     map (entry_of env cl) (filter (survives env cl) (List.enumerate 0 items))"

text \<open>
  The invariant of the accumulation list, after \<open>n\<close> articles have been handled: the
  summary of an entry is not empty, and it is the completion the model gave for a text
  of at least 250 characters extracted from the entry's URL for one of those articles.
\<close>

definition entry_inv :: "env \<Rightarrow> nat \<Rightarrow> digest_entry \<Rightarrow> bool" where
  "entry_inv env n e =
     (summary e \<noteq> []
      \<and> (\<exists>i<n. case page_at env i (url e) of
                  Inl x \<Rightarrow> False
                | Inr text \<Rightarrow> 250 \<le> length text
                              \<and> completion_at env i text = Inr (Some (summary e))))"

section \<open>Example inputs\<close>

text \<open>
  The end-to-end scenario of the specification: the provider returns the stubs A (at
  u1) and B (at u2); u1 yields 1000 characters, summarized to S1; u2 yields 100.
\<close>

definition ex_cfg :: config where
  "ex_cfg = \<lparr>GNEWS_API_KEY = lit ''k1'', OPENAI_API_KEY = lit ''k2'',
     SENDER_EMAIL = lit ''from@example.org'', SENDER_APP_PASSWORD = lit ''pw'',
     RECIPIENT_EMAIL = lit ''to@example.org''\<rparr>"

definition ex_stub :: "string \<Rightarrow> string \<Rightarrow> pyval" where
  "ex_stub t u = PDict [(lit ''title'', PStr (lit t)), (lit ''url'', PStr (lit u))]"

definition ex_items :: "pyval list" where
  "ex_items = [ex_stub ''A'' ''u1'', ex_stub ''B'' ''u2'']"

definition ex_stubs :: pyval where
  "ex_stubs = PList ex_items"

definition ex_env :: env where
  "ex_env = \<lparr>openai_init = None,
     http_get = (\<lambda>u. Response 200 (Inr (PDict [(lit ''articles'', ex_stubs)]))),
     page_at = (\<lambda>i u. if u = PStr (lit ''u1'') then Inr (replicate 1000 120)
                        else Inr (replicate 100 120)),
     completion_at = (\<lambda>i t. Inr (Some (lit ''S1''))),
     smtp_session = (\<lambda>m. None),
     str_other = (\<lambda>v. lit ''?'')\<rparr>"

definition ex_entry :: "string \<Rightarrow> string \<Rightarrow> string \<Rightarrow> digest_entry" where
  "ex_entry t s u = \<lparr>title = PStr (lit t), summary = lit s, url = PStr (lit u)\<rparr>"

text \<open>The provider answers with no article.\<close>

definition ex_env_none :: env where
  "ex_env_none =
     ex_env\<lparr>http_get := (\<lambda>u. Response 200 (Inr (PDict [(lit ''articles'', PList [])])))\<rparr>"

text \<open>The provider answers with six articles, one more than \<open>MAX_ARTICLES\<close>; every
  page is long enough and every completion is the summary S.\<close>

definition ex_six :: "pyval list" where
  "ex_six = [ex_stub ''T1'' ''v1'', ex_stub ''T2'' ''v2'', ex_stub ''T3'' ''v3'',
             ex_stub ''T4'' ''v4'', ex_stub ''T5'' ''v5'', ex_stub ''T6'' ''v6'']"

definition ex_env_six :: env where
  "ex_env_six = \<lparr>openai_init = None,
     http_get = (\<lambda>u. Response 200 (Inr (PDict [(lit ''articles'', PList ex_six)]))),
     page_at = (\<lambda>i u. Inr (replicate 300 120)),
     completion_at = (\<lambda>i t. Inr (Some (lit ''S''))),
     smtp_session = (\<lambda>m. None),
     str_other = (\<lambda>v. lit ''?'')\<rparr>"


text \<open>Responses of the provider that are not the expected one: a body that is a JSON
  array; an article without a title; the status 300 with a well-formed body; no
  connection; the status 404; a body that is not JSON.\<close>

definition ex_env_array :: env where
  "ex_env_array = ex_env\<lparr>http_get := (\<lambda>u. Response 200 (Inr (PList [])))\<rparr>"

definition ex_env_untitled :: env where
  "ex_env_untitled = ex_env\<lparr>http_get := (\<lambda>u. Response 200
     (Inr (PDict [(lit ''articles'', PList [PDict [(lit ''url'', PStr (lit ''u1''))]])])))\<rparr>"

text \<open>A short article B, then an article without a title.\<close>

definition ex_env_late_untitled :: env where
  "ex_env_late_untitled = ex_env\<lparr>http_get := (\<lambda>u. Response 200
     (Inr (PDict [(lit ''articles'',
        PList [ex_stub ''B'' ''u2'', PDict [(lit ''url'', PStr (lit ''u3''))]])])))\<rparr>"

definition ex_env_300 :: env where
  "ex_env_300 = ex_env\<lparr>http_get := (\<lambda>u. Response 300 (Inr (PDict [(lit ''articles'', ex_stubs)])))\<rparr>"

definition ex_env_offline :: env where
  "ex_env_offline = ex_env\<lparr>http_get := (\<lambda>u. Get_raises RequestException)\<rparr>"

definition ex_env_404 :: env where
  "ex_env_404 = ex_env\<lparr>http_get := (\<lambda>u. Response 404 (Inr (PDict [(lit ''articles'', ex_stubs)])))\<rparr>"

definition ex_env_garbled :: env where
  "ex_env_garbled = ex_env\<lparr>http_get := (\<lambda>u. Response 200 (Inl RequestException))\<rparr>"

section \<open>Basic facts\<close>

lemma lit_append: "lit (a @ b) = lit a @ lit b"
  by (simp add: lit_def)



section \<open>send_email: what is rendered\<close>

text \<open>The loop appends one block per entry to each body, in the order of the list.\<close>

lemma render_fold:
  "foldl (render_step other) (a, b) es =
     (a @ concat (map (text_item other) es), b @ concat (map (html_item other) es))"
proof (induction es arbitrary: a b)
  case Nil
  show ?case by simp
next
  case (Cons e es)
  have "render_step other (a, b) e = (a @ text_item other e, b @ html_item other e)"
    by (simp add: render_step_def text_item_def html_item_def lit_append [symmetric])
  then show ?case using Cons.IH by simp
qed

lemma send_email_trace:
  "fst (send_email cfg env es) =
     [Call_send_email es,
      Smtp_session \<lparr>msg_subject =
          lit ''Your Daily AI News Update ('' @ decimal (length es) @ lit '' stories)'',
        msg_from = SENDER_EMAIL cfg, msg_to = RECIPIENT_EMAIL cfg,
        msg_text = text_header @ concat (map (text_item (str_other env)) es),
        msg_html = html_header @ concat (map (html_item (str_other env)) es) @ html_footer\<rparr>]"
  by (simp add: send_email_def Let_def render_fold py_str_int_def text_header_def
      html_header_def html_footer_def)

text \<open>Both handlers of the SMTP block swallow the exception: \<open>send_email\<close> returns.\<close>

lemma send_email_returns: "snd (send_email cfg env es) = Inr ()"
  by (simp add: send_email_def Let_def split: option.splits)



section \<open>summarize_article\<close>

text \<open>No exception leaves \<open>summarize_article\<close>.\<close>

lemma summarize_article_returns:
  "\<exists>r. snd (summarize_article cl page complete u) = Inr r"
  by (simp add: summarize_article_def split: prod.splits sum.splits)

text \<open>
  Claim C2. When the extracted text has fewer than 250 characters, \<open>summarize_article\<close>
  returns \<open>None\<close> and makes no model call; when it has 250 or more and the client is
  configured, the model is called, once, with that text.
\<close>

theorem short_text_skips_model:
  assumes "page u = Inr text"
  shows "(length text < 250 \<longrightarrow>
            snd (summarize_article cl page complete u) = Inr None
            \<and> model_calls (fst (summarize_article cl page complete u)) = [])
       \<and> (250 \<le> length text \<and> cl \<noteq> None \<longrightarrow>
            model_calls (fst (summarize_article cl page complete u)) = [text])"
  using assms
  by (auto simp: summarize_article_def summarize_try_def split: sum.splits)

text \<open>At the boundary: 249 characters are skipped, 250 are sent to the model.\<close>

theorem short_text_skips_model_witness:
  "snd (summarize_article (Some OpenAI_client) (\<lambda>u. Inr (replicate 249 120))
          (\<lambda>t. Inr (Some (lit ''S1''))) (PStr (lit ''u1''))) = Inr None
   \<and> model_calls (fst (summarize_article (Some OpenAI_client) (\<lambda>u. Inr (replicate 249 120))
          (\<lambda>t. Inr (Some (lit ''S1''))) (PStr (lit ''u1'')))) = []
   \<and> model_calls (fst (summarize_article (Some OpenAI_client) (\<lambda>u. Inr (replicate 250 120))
          (\<lambda>t. Inr (Some (lit ''S1''))) (PStr (lit ''u1'')))) = [replicate 250 120]"
  using short_text_skips_model [of "\<lambda>u. Inr (replicate 249 120)" "PStr (lit ''u1'')"
          "replicate 249 120" "Some OpenAI_client" "\<lambda>t. Inr (Some (lit ''S1''))"]
        short_text_skips_model [of "\<lambda>u. Inr (replicate 250 120)" "PStr (lit ''u1'')"
          "replicate 250 120" "Some OpenAI_client" "\<lambda>t. Inr (Some (lit ''S1''))"]
  by simp

section \<open>Traces\<close>

lemma summarizer_calls_append:
  "summarizer_calls (a @ b) = summarizer_calls a @ summarizer_calls b"
  by (induction a rule: summarizer_calls.induct) simp_all


lemma sender_calls_append: "sender_calls (a @ b) = sender_calls a @ sender_calls b"
  by (induction a rule: sender_calls.induct) simp_all

lemma smtp_messages_append: "smtp_messages (a @ b) = smtp_messages a @ smtp_messages b"
  by (induction a rule: smtp_messages.induct) simp_all

lemma fetch_news_trace:
  "fst (fetch_news cfg env topic n) =
     [Call_fetch_news topic n, Http_get (request_url cfg topic n)]"
  by (simp add: fetch_news_def Let_def)

lemma summarize_article_trace:
  "fst (summarize_article cl page complete u) =
     Call_summarize_article u # fst (summarize_try cl page complete u)"
  by (simp add: summarize_article_def split: prod.splits sum.splits)

lemma summarize_try_trace:
  "fst (summarize_try cl page complete u) = [Download u]
   \<or> (\<exists>text. fst (summarize_try cl page complete u) = [Download u, Model_call text])"
  by (simp add: summarize_try_def split: sum.splits)

lemma summarize_article_calls:
  "summarizer_calls (fst (summarize_article cl page complete u)) = [u]"
  "sender_calls (fst (summarize_article cl page complete u)) = []"
  "smtp_messages (fst (summarize_article cl page complete u)) = []"
  using summarize_try_trace [of cl page complete u]
  by (auto simp: summarize_article_trace)

section \<open>The loop of main\<close>

text \<open>On a stub the loop body raises nothing: it appends the entry or leaves the list.\<close>

lemma loop_body_stub:
  assumes "is_stub a"
  shows "loop_body env cl i a acc =
     (fst (summarize_article cl (page_at env i) (completion_at env i) (stub_field ''url'' a)),
      Inr (if survives env cl (i, a) then acc @ [entry_of env cl (i, a)] else acc))"
proof -
  from assms obtain kvs t u where a: "a = PDict kvs"
    and t: "map_of kvs (lit ''title'') = Some t" and u: "map_of kvs (lit ''url'') = Some u"
    by (auto simp: is_stub_def split: pyval.splits)
  obtain tr r where s: "summarize_article cl (page_at env i) (completion_at env i) u = (tr, Inr r)"
    using summarize_article_returns [of cl "page_at env i" "completion_at env i" u]
    by (cases "summarize_article cl (page_at env i) (completion_at env i) u") auto
  show ?thesis
    using a t u s
    by (cases r)
      (simp_all add: loop_body_def stub_field_def survives_def entry_of_def summary_at_def)
qed

lemma loop_body_sender_calls:
  "sender_calls (fst (loop_body env cl i a acc)) = []"
  "smtp_messages (fst (loop_body env cl i a acc)) = []"
proof -
  have *: "\<And>u tr r. summarize_article cl (page_at env i) (completion_at env i) u = (tr, r)
     \<Longrightarrow> sender_calls tr = [] \<and> smtp_messages tr = []"
    using summarize_article_calls(2,3) by (metis fst_conv)
  show "sender_calls (fst (loop_body env cl i a acc)) = []"
    by (auto simp: loop_body_def split: sum.splits prod.splits option.splits dest: *)
  show "smtp_messages (fst (loop_body env cl i a acc)) = []"
    by (auto simp: loop_body_def split: sum.splits prod.splits option.splits dest: *)
qed

text \<open>The loop never reaches the Sender.\<close>

lemma summarize_loop_sender_calls:
  "sender_calls (fst (summarize_loop env cl i items acc)) = []
   \<and> smtp_messages (fst (summarize_loop env cl i items acc)) = []"
proof (induction items arbitrary: i acc)
  case Nil
  show ?case by simp
next
  case (Cons a items)
  obtain tr r where b: "loop_body env cl i a acc = (tr, r)"
    by (cases "loop_body env cl i a acc")
  have tr: "sender_calls tr = []" "smtp_messages tr = []"
    using loop_body_sender_calls [of env cl i a acc] b by simp_all
  show ?case
  proof (cases r)
    case (Inl e)
    with b tr show ?thesis by simp
  next
    case (Inr acc')
    obtain tr' r' where l: "summarize_loop env cl (Suc i) items acc' = (tr', r')"
      by (cases "summarize_loop env cl (Suc i) items acc'")
    with Cons.IH [of "Suc i" acc'] have "sender_calls tr' = []" "smtp_messages tr' = []"
      by simp_all
    with b Inr l tr show ?thesis by (simp add: sender_calls_append smtp_messages_append)
  qed
qed

text \<open>
  On a list of stubs the loop ends normally; it calls the Summarizer once per stub, in
  the order of the list, and returns the entries of the stubs that survive, in that
  order, after the entries it started with.
\<close>

lemma summarize_loop_stubs:
  assumes "\<forall>a\<in>set items. is_stub a"
  shows "snd (summarize_loop env cl i items acc) =
           Inr (acc @ map (entry_of env cl) (filter (survives env cl) (List.enumerate i items)))
       \<and> summarizer_calls (fst (summarize_loop env cl i items acc))
           = map (stub_field ''url'') items"
  using assms
proof (induction items arbitrary: i acc)
  case Nil
  show ?case by simp
next
  case (Cons a items)
  let ?acc' = "if survives env cl (i, a) then acc @ [entry_of env cl (i, a)] else acc"
  from Cons.prems have a: "is_stub a" and rest: "\<forall>a\<in>set items. is_stub a" by simp_all
  obtain tr' r' where l: "summarize_loop env cl (Suc i) items ?acc' = (tr', r')"
    by (cases "summarize_loop env cl (Suc i) items ?acc'")
  from Cons.IH [OF rest, of "Suc i" ?acc'] l
  have r': "r' = Inr (?acc' @ map (entry_of env cl)
                (filter (survives env cl) (List.enumerate (Suc i) items)))"
    and tr': "summarizer_calls tr' = map (stub_field ''url'') items"
    by simp_all
  show ?case
    using l r' tr'
    by (simp add: loop_body_stub [OF a] summarizer_calls_append summarize_article_calls)
qed

section \<open>main\<close>

lemma main_falsy:
  assumes "snd (fetch_news cfg env NEWS_TOPIC MAX_ARTICLES) = Inr v" and "\<not> truthy v"
  shows "main cfg env cl = (fst (fetch_news cfg env NEWS_TOPIC MAX_ARTICLES), Inr ())"
  using assms by (cases "fetch_news cfg env NEWS_TOPIC MAX_ARTICLES") (simp add: main_def)

lemma main_on_stubs:
  assumes f: "snd (fetch_news cfg env NEWS_TOPIC MAX_ARTICLES) = Inr (PList items)"
    and ne: "items \<noteq> []" and st: "\<forall>a\<in>set items. is_stub a"
  shows "snd (main cfg env cl) = Inr ()"
    and "summarizer_calls (fst (main cfg env cl)) = map (stub_field ''url'') items"
    and "sender_calls (fst (main cfg env cl)) =
           (if digest env cl items = [] then [] else [digest env cl items])"
proof -
  obtain t1 where f1: "fetch_news cfg env NEWS_TOPIC MAX_ARTICLES = (t1, Inr (PList items))"
    using f by (cases "fetch_news cfg env NEWS_TOPIC MAX_ARTICLES") simp
  have t1: "t1 = [Call_fetch_news NEWS_TOPIC MAX_ARTICLES,
                  Http_get (request_url cfg NEWS_TOPIC MAX_ARTICLES)]"
    using fetch_news_trace [of cfg env NEWS_TOPIC MAX_ARTICLES] f1 by simp
  obtain t2 r2 where l: "summarize_loop env cl 0 items [] = (t2, r2)"
    by (cases "summarize_loop env cl 0 items []")
  from summarize_loop_stubs [OF st, of env cl 0 "[]"] l
  have r2: "r2 = Inr (digest env cl items)"
    and t2: "summarizer_calls t2 = map (stub_field ''url'') items"
    by (simp_all add: digest_def)
  from summarize_loop_sender_calls [of env cl 0 items "[]"] l
  have s2: "sender_calls t2 = []" by simp
  obtain t3 r3 where s: "send_email cfg env (digest env cl items) = (t3, r3)"
    by (cases "send_email cfg env (digest env cl items)")
  from send_email_returns [of cfg env "digest env cl items"] s have r3: "r3 = Inr ()" by simp
  from send_email_trace [of cfg env "digest env cl items"] s
  have t3: "summarizer_calls t3 = []" "sender_calls t3 = [digest env cl items]" by auto
  show "snd (main cfg env cl) = Inr ()"
    using f1 ne l r2 s r3 by (simp add: main_def)
  show "summarizer_calls (fst (main cfg env cl)) = map (stub_field ''url'') items"
    using f1 ne l r2 s t1 t2 t3 by (simp add: main_def summarizer_calls_append)
  show "sender_calls (fst (main cfg env cl)) =
           (if digest env cl items = [] then [] else [digest env cl items])"
    using f1 ne l r2 s t1 s2 t3 by (simp add: main_def sender_calls_append)
qed

text \<open>The Sender is called at most once, with the non-empty list the loop returned.\<close>

lemma main_sender_calls:
  "sender_calls (fst (main cfg env cl)) = []
   \<or> (\<exists>items t2 es. es \<noteq> [] \<and> summarize_loop env cl 0 items [] = (t2, Inr es)
         \<and> sender_calls (fst (main cfg env cl)) = [es])"
proof -
  obtain t1 r1 where f1: "fetch_news cfg env NEWS_TOPIC MAX_ARTICLES = (t1, r1)"
    by (cases "fetch_news cfg env NEWS_TOPIC MAX_ARTICLES")
  have t1: "sender_calls t1 = []"
    using fetch_news_trace [of cfg env NEWS_TOPIC MAX_ARTICLES] f1 by simp
  show ?thesis
  proof (cases r1)
    case (Inl e)
    with f1 t1 show ?thesis by (simp add: main_def)
  next
    case (Inr articles)
    note r1 = this
    show ?thesis
    proof (cases "py_iter articles")
      case (Inl e)
      with f1 r1 t1 show ?thesis by (simp add: main_def split: sum.splits)
    next
      case (Inr items)
      note it = this
      obtain t2 r2 where l: "summarize_loop env cl 0 items [] = (t2, r2)"
        by (cases "summarize_loop env cl 0 items []")
      from summarize_loop_sender_calls [of env cl 0 items "[]"] l
      have t2: "sender_calls t2 = []" by simp
      show ?thesis
      proof (cases r2)
        case (Inl e)
        with f1 r1 t1 it l t2 show ?thesis
          by (simp add: main_def sender_calls_append split: sum.splits)
      next
        case (Inr es)
        obtain t3 r3 where s: "send_email cfg env es = (t3, r3)"
          by (cases "send_email cfg env es")
        from send_email_trace [of cfg env es] s have t3: "sender_calls t3 = [es]" by auto
        from f1 r1 t1 it l t2 Inr s t3
        have "sender_calls (fst (main cfg env cl)) = (if truthy articles \<and> (\<exists>n. py_len articles = Inr n) \<and> es \<noteq> [] then [es] else [])"
          by (auto simp: main_def sender_calls_append split: sum.splits)
        with l Inr show ?thesis by (auto split: if_splits)
      qed
    qed
  qed
qed

section \<open>The examples evaluated\<close>

lemma ex_fetch: "snd (fetch_news ex_cfg ex_env NEWS_TOPIC MAX_ARTICLES) = Inr (PList ex_items)"
  by (simp add: fetch_news_def fetch_try_def ex_env_def ex_stubs_def Let_def)

lemma ex_fetch_none:
  "snd (fetch_news ex_cfg ex_env_none NEWS_TOPIC MAX_ARTICLES) = Inr (PList [])"
  by (simp add: fetch_news_def fetch_try_def ex_env_none_def ex_env_def Let_def)

lemma ex_fetch_six:
  "snd (fetch_news ex_cfg ex_env_six NEWS_TOPIC MAX_ARTICLES) = Inr (PList ex_six)"
  by (simp add: fetch_news_def fetch_try_def ex_env_six_def Let_def)

lemma ex_stub_is_stub: "is_stub (ex_stub t u)"
  by (simp add: is_stub_def ex_stub_def lit_def)

lemma ex_stub_field:
  "stub_field ''title'' (ex_stub t u) = PStr (lit t)"
  "stub_field ''url'' (ex_stub t u) = PStr (lit u)"
  by (simp_all add: stub_field_def ex_stub_def lit_def)

lemma survives_no_client: "\<not> survives env None ia"
  by (simp add: survives_def summary_at_def summarize_article_def summarize_try_def
      split: sum.splits)




section \<open>Short-circuits of the orchestrator\<close>

text \<open>
  What holds of the short-circuits. When the Fetcher returns nothing (any falsy value),
  \<open>main\<close> returns without a call of the Summarizer or of the Sender. When it returns
  a list of stubs of which none survives summarization, \<open>main\<close> returns, every stub
  having been given to the Summarizer, without a call of the Sender. In every run
  \<open>send_email\<close> is called at most once, and never with an empty list. Normal
  termination in the second case needs every article to be a stub.
\<close>

lemma short_circuit:
  "(snd (fetch_news cfg env NEWS_TOPIC MAX_ARTICLES) = Inr v \<and> \<not> truthy v \<longrightarrow>
      snd (main cfg env cl) = Inr ()
      \<and> summarizer_calls (fst (main cfg env cl)) = []
      \<and> sender_calls (fst (main cfg env cl)) = [])
   \<and> (snd (fetch_news cfg env NEWS_TOPIC MAX_ARTICLES) = Inr (PList items) \<and> items \<noteq> []
        \<and> (\<forall>a\<in>set items. is_stub a)
        \<and> (\<forall>ia\<in>set (List.enumerate 0 items). \<not> survives env cl ia) \<longrightarrow>
      snd (main cfg env cl) = Inr ()
      \<and> summarizer_calls (fst (main cfg env cl)) = map (stub_field ''url'') items
      \<and> sender_calls (fst (main cfg env cl)) = [])
   \<and> length (sender_calls (fst (main cfg env cl))) \<le> 1
   \<and> (\<forall>es\<in>set (sender_calls (fst (main cfg env cl))). es \<noteq> [])"
proof (intro conjI impI)
  assume a: "snd (fetch_news cfg env NEWS_TOPIC MAX_ARTICLES) = Inr v \<and> \<not> truthy v"
  then have m: "main cfg env cl = (fst (fetch_news cfg env NEWS_TOPIC MAX_ARTICLES), Inr ())"
    by (simp add: main_falsy)
  show "snd (main cfg env cl) = Inr ()" using m by simp
  show "summarizer_calls (fst (main cfg env cl)) = []" using m by (simp add: fetch_news_trace)
  show "sender_calls (fst (main cfg env cl)) = []" using m by (simp add: fetch_news_trace)
next
  assume a: "snd (fetch_news cfg env NEWS_TOPIC MAX_ARTICLES) = Inr (PList items) \<and> items \<noteq> []
        \<and> (\<forall>a\<in>set items. is_stub a)
        \<and> (\<forall>ia\<in>set (List.enumerate 0 items). \<not> survives env cl ia)"
  then have d: "digest env cl items = []" by (simp add: digest_def filter_empty_conv)
  from a show "snd (main cfg env cl) = Inr ()" by (simp add: main_on_stubs(1))
  from a show "summarizer_calls (fst (main cfg env cl)) = map (stub_field ''url'') items"
    by (simp add: main_on_stubs(2))
  from a d show "sender_calls (fst (main cfg env cl)) = []" by (simp add: main_on_stubs(3))
next
  show "length (sender_calls (fst (main cfg env cl))) \<le> 1"
    using main_sender_calls [of cfg env cl] by auto
  show "\<forall>es\<in>set (sender_calls (fst (main cfg env cl))). es \<noteq> []"
    using main_sender_calls [of cfg env cl] by auto
qed

text \<open>No article from the provider; then two articles and no model client.\<close>

lemma short_circuit_examples:
  "snd (main ex_cfg ex_env_none (Some OpenAI_client)) = Inr ()
   \<and> summarizer_calls (fst (main ex_cfg ex_env_none (Some OpenAI_client))) = []
   \<and> sender_calls (fst (main ex_cfg ex_env_none (Some OpenAI_client))) = []
   \<and> snd (main ex_cfg ex_env None) = Inr ()
   \<and> summarizer_calls (fst (main ex_cfg ex_env None)) = [PStr (lit ''u1''), PStr (lit ''u2'')]
   \<and> sender_calls (fst (main ex_cfg ex_env None)) = []"
proof -
  have h1: "snd (fetch_news ex_cfg ex_env_none NEWS_TOPIC MAX_ARTICLES) = Inr (PList [])
            \<and> \<not> truthy (PList [])"
    by (simp add: ex_fetch_none)
  have h2: "snd (fetch_news ex_cfg ex_env NEWS_TOPIC MAX_ARTICLES) = Inr (PList ex_items)
            \<and> ex_items \<noteq> [] \<and> (\<forall>a\<in>set ex_items. is_stub a)
            \<and> (\<forall>ia\<in>set (List.enumerate 0 ex_items). \<not> survives ex_env None ia)"
    by (simp add: ex_fetch survives_no_client) (simp add: ex_items_def ex_stub_is_stub)
  from short_circuit [where cfg = ex_cfg and env = ex_env_none and v = "PList []"
      and cl = "Some OpenAI_client"] h1
  have a: "snd (main ex_cfg ex_env_none (Some OpenAI_client)) = Inr ()
      \<and> summarizer_calls (fst (main ex_cfg ex_env_none (Some OpenAI_client))) = []
      \<and> sender_calls (fst (main ex_cfg ex_env_none (Some OpenAI_client))) = []"
    by blast
  from short_circuit [where cfg = ex_cfg and env = ex_env and items = ex_items
      and cl = None] h2
  have b: "snd (main ex_cfg ex_env None) = Inr ()
      \<and> summarizer_calls (fst (main ex_cfg ex_env None)) = map (stub_field ''url'') ex_items
      \<and> sender_calls (fst (main ex_cfg ex_env None)) = []"
    by blast
  from a b show ?thesis by (simp add: ex_items_def ex_stub_field)
qed

section \<open>No truncation by fetch_news\<close>



section \<open>A missing model client\<close>





section \<open>The invariant of the digest entries\<close>

lemma entry_inv_mono: "entry_inv env n e \<Longrightarrow> n \<le> m \<Longrightarrow> entry_inv env m e"
  by (auto simp: entry_inv_def intro: less_le_trans)

lemma summarize_article_Some:
  assumes "snd (summarize_article cl page complete u) = Inr (Some s)"
  shows "\<exists>text. page u = Inr text \<and> 250 \<le> length text \<and> cl \<noteq> None
                \<and> complete text = Inr (Some s)"
  using assms
  by (auto simp: summarize_article_def summarize_try_def split: sum.splits if_splits)

lemma loop_body_inv:
  assumes inv: "\<forall>e\<in>set acc. entry_inv env i e"
    and b: "loop_body env cl i a acc = (tr, Inr acc')"
  shows "\<forall>e\<in>set acc'. entry_inv env (Suc i) e"
proof -
  have old: "\<forall>e\<in>set acc. entry_inv env (Suc i) e"
    using inv entry_inv_mono [of env i _ "Suc i"] by simp
  show ?thesis
  proof (cases "acc' = acc")
    case True
    with old show ?thesis by simp
  next
    case False
    with b obtain t u s where acc': "acc' = acc @ [\<lparr>title = t, summary = s, url = u\<rparr>]"
      and s: "snd (summarize_article cl (page_at env i) (completion_at env i) u) = Inr (Some s)"
      and ne: "s \<noteq> []"
      by (auto simp: loop_body_def split: sum.splits prod.splits option.splits if_splits)
    from summarize_article_Some [OF s]
    obtain body where "page_at env i u = Inr body" "250 \<le> length body"
      "completion_at env i body = Inr (Some s)" by blast
    with ne have "entry_inv env (Suc i) \<lparr>title = t, summary = s, url = u\<rparr>"
      by (auto simp: entry_inv_def intro!: exI [of _ i])
    with old acc' show ?thesis by simp
  qed
qed

lemma summarize_loop_inv:
  assumes "\<forall>e\<in>set acc. entry_inv env i e"
    and "summarize_loop env cl i items acc = (tr, Inr acc')"
  shows "\<forall>e\<in>set acc'. entry_inv env (i + length items) e"
  using assms
proof (induction items arbitrary: i acc tr)
  case Nil
  then show ?case by simp
next
  case (Cons a items)
  obtain tr1 r1 where b: "loop_body env cl i a acc = (tr1, r1)"
    by (cases "loop_body env cl i a acc")
  with Cons.prems(2) obtain acc1 where r1: "r1 = Inr acc1"
    by (cases r1) auto
  obtain tr2 r2 where l: "summarize_loop env cl (Suc i) items acc1 = (tr2, r2)"
    by (cases "summarize_loop env cl (Suc i) items acc1")
  with Cons.prems(2) b r1 have r2: "r2 = Inr acc'" by simp
  from loop_body_inv [OF Cons.prems(1)] b r1
  have "\<forall>e\<in>set acc1. entry_inv env (Suc i) e" by simp
  from Cons.IH [OF this] l r2 show ?case by simp
qed

text \<open>
  Claim C7. Every pass of the loop of \<open>main\<close> preserves the invariant: if every entry
  of the list has a non-empty summary obtained from an extracted text of at least 250
  characters, so has every entry of the list after the pass. Hence every entry of a
  list handed to \<open>send_email\<close> has such a summary.
\<close>

theorem digest_entry_invariant:
  "((\<forall>e\<in>set acc. entry_inv env i e) \<and> loop_body env cl i a acc = (tr, Inr acc')
      \<longrightarrow> (\<forall>e\<in>set acc'. entry_inv env (Suc i) e))
   \<and> (\<forall>es\<in>set (sender_calls (fst (main cfg env cl))). \<forall>e\<in>set es. \<exists>n. entry_inv env n e)"
proof (intro conjI impI ballI)
  fix e assume "(\<forall>e\<in>set acc. entry_inv env i e) \<and> loop_body env cl i a acc = (tr, Inr acc')"
    and "e \<in> set acc'"
  then show "entry_inv env (Suc i) e" using loop_body_inv by blast
next
  fix es e assume es: "es \<in> set (sender_calls (fst (main cfg env cl)))" and e: "e \<in> set es"
  with main_sender_calls [of cfg env cl]
  obtain items t2 where "summarize_loop env cl 0 items [] = (t2, Inr es)" by auto
  from summarize_loop_inv [OF _ this] e have "entry_inv env (0 + length items) e" by simp
  then show "\<exists>n. entry_inv env n e" ..
qed

lemma ex_loop_steps:
  "loop_body ex_env (Some OpenAI_client) 0 (ex_stub ''A'' ''u1'') []
     = ([Call_summarize_article (PStr (lit ''u1'')), Download (PStr (lit ''u1'')),
         Model_call (replicate 1000 120)], Inr [ex_entry ''A'' ''S1'' ''u1''])"
  "loop_body ex_env (Some OpenAI_client) (Suc 0) (ex_stub ''B'' ''u2'') [ex_entry ''A'' ''S1'' ''u1'']
     = ([Call_summarize_article (PStr (lit ''u2'')), Download (PStr (lit ''u2''))],
        Inr [ex_entry ''A'' ''S1'' ''u1''])"
  by (simp_all add: loop_body_def ex_stub_def summarize_article_def summarize_try_def
      ex_env_def ex_entry_def lit_def)

text \<open>The two passes of the scenario: A is appended, B (100 characters) is skipped.\<close>

theorem digest_entry_invariant_witness:
  "entry_inv ex_env (Suc 0) (ex_entry ''A'' ''S1'' ''u1'')
   \<and> entry_inv ex_env (Suc (Suc 0)) (ex_entry ''A'' ''S1'' ''u1'')
   \<and> summary (ex_entry ''A'' ''S1'' ''u1'') = lit ''S1''"
proof -
  have h0: "\<forall>e\<in>set []. entry_inv ex_env 0 e" by simp
  from digest_entry_invariant [where env = ex_env and acc = "[]" and i = 0
      and cl = "Some OpenAI_client" and a = "ex_stub ''A'' ''u1''"
      and acc' = "[ex_entry ''A'' ''S1'' ''u1'']"] h0 ex_loop_steps(1)
  have s1: "\<forall>e\<in>set [ex_entry ''A'' ''S1'' ''u1'']. entry_inv ex_env (Suc 0) e" by blast
  from digest_entry_invariant [where env = ex_env and acc = "[ex_entry ''A'' ''S1'' ''u1'']"
      and i = "Suc 0" and cl = "Some OpenAI_client" and a = "ex_stub ''B'' ''u2''"
      and acc' = "[ex_entry ''A'' ''S1'' ''u1'']"] s1 ex_loop_steps(2)
  have s2: "\<forall>e\<in>set [ex_entry ''A'' ''S1'' ''u1'']. entry_inv ex_env (Suc (Suc 0)) e" by blast
  from s1 s2 show ?thesis by (simp add: ex_entry_def)
qed

section \<open>The two bodies of the digest\<close>

text \<open>
  Claim C5 as stated, that each body contains every title, summary and URL exactly
  once, does not hold of the text as a whole: a title that is repeated in its summary occurs twice in
  each body.
\<close>

theorem repeated_title_counterexample:
  "map (\<lambda>m. (occurrences (lit ''AI'') (msg_text m), occurrences (lit ''AI'') (msg_html m)))
     (smtp_messages (fst (send_email ex_cfg ex_env [ex_entry ''AI'' ''AI is here'' ''u1''])))
   = [(2, 2)]"
  by (simp add: send_email_trace text_header_def text_item_def html_header_def html_item_def
      html_footer_def bullet_def ex_entry_def ex_env_def lit_def)

text \<open>The digest keeps the order of the provider's list.\<close>

lemma digest_subseq:
  "subseq (map (\<lambda>e. (title e, url e)) (digest env cl items))
          (map (\<lambda>a. (stub_field ''title'' a, stub_field ''url'' a)) items)"
proof -
  let ?kept = "map snd (filter (survives env cl) (List.enumerate 0 items))"
  have eq: "map (\<lambda>e. (title e, url e)) (digest env cl items)
        = map (\<lambda>a. (stub_field ''title'' a, stub_field ''url'' a)) ?kept"
    by (simp add: digest_def entry_of_def comp_def)
  have "subseq ?kept (map snd (List.enumerate 0 items))"
    by (intro subseq_map subseq_filter_left)
  then have "subseq ?kept items" by simp
  then have "subseq (map (\<lambda>a. (stub_field ''title'' a, stub_field ''url'' a)) ?kept)
                    (map (\<lambda>a. (stub_field ''title'' a, stub_field ''url'' a)) items)"
    by (rule subseq_map)
  with eq show ?thesis by simp
qed

text \<open>
  Claim C5, amended. The plain-text body is the heading followed by one block per entry,
  and the HTML body is the heading, one list item per entry and the closing tags; the
  blocks stand in the order of the list given to \<open>send_email\<close>, and each block inserts
  the title, the summary and the URL of its entry once each, in that order (\<open>text_item\<close>,
  \<open>html_item\<close>). When the provider sends a list of stubs, the list \<open>main\<close> hands to
  \<open>send_email\<close> consists of the entries of the stubs that survive summarization, in the
  provider's order: it is never re-sorted.
\<close>

theorem bodies_follow_input_order:
  "map msg_text (smtp_messages (fst (send_email cfg env es)))
     = [text_header @ concat (map (text_item (str_other env)) es)]
   \<and> map msg_html (smtp_messages (fst (send_email cfg env es)))
     = [html_header @ concat (map (html_item (str_other env)) es) @ html_footer]
   \<and> (snd (fetch_news cfg env NEWS_TOPIC MAX_ARTICLES) = Inr (PList items)
        \<and> (\<forall>a\<in>set items. is_stub a) \<longrightarrow>
      (\<forall>es'\<in>set (sender_calls (fst (main cfg env cl))).
          es' = map (entry_of env cl) (filter (survives env cl) (List.enumerate 0 items))
          \<and> subseq (map (\<lambda>e. (title e, url e)) es')
                    (map (\<lambda>a. (stub_field ''title'' a, stub_field ''url'' a)) items)))"
proof (intro conjI impI ballI)
  show "map msg_text (smtp_messages (fst (send_email cfg env es)))
     = [text_header @ concat (map (text_item (str_other env)) es)]"
    by (simp add: send_email_trace)
  show "map msg_html (smtp_messages (fst (send_email cfg env es)))
     = [html_header @ concat (map (html_item (str_other env)) es) @ html_footer]"
    by (simp add: send_email_trace)
next
  fix es'
  assume a: "snd (fetch_news cfg env NEWS_TOPIC MAX_ARTICLES) = Inr (PList items)
        \<and> (\<forall>a\<in>set items. is_stub a)"
    and es': "es' \<in> set (sender_calls (fst (main cfg env cl)))"
  have "items \<noteq> []"
  proof
    assume "items = []"
    with a have "sender_calls (fst (main cfg env cl)) = []"
      by (simp add: main_falsy fetch_news_trace)
    with es' show False by simp
  qed
  with a have "sender_calls (fst (main cfg env cl)) =
           (if digest env cl items = [] then [] else [digest env cl items])"
    by (simp add: main_on_stubs(3))
  with es' have e: "es' = digest env cl items" by (simp split: if_splits)
  then show "es' = map (entry_of env cl) (filter (survives env cl) (List.enumerate 0 items))"
    by (simp add: digest_def)
  from e show "subseq (map (\<lambda>e. (title e, url e)) es')
                    (map (\<lambda>a. (stub_field ''title'' a, stub_field ''url'' a)) items)"
    by (simp add: digest_subseq)
qed

lemma ex_main_sender:
  "sender_calls (fst (main ex_cfg ex_env (Some OpenAI_client))) = [[ex_entry ''A'' ''S1'' ''u1'']]"
  by code_simp

text \<open>Two entries rendered; and the scenario, where A is kept and B dropped.\<close>

theorem bodies_follow_input_order_witness:
  "map msg_text (smtp_messages (fst (send_email ex_cfg ex_env
       [ex_entry ''A'' ''S1'' ''u1'', ex_entry ''C'' ''S3'' ''u3''])))
     = [lit ''Here is your daily news summary:'' @ [10, 10]
        @ bullet @ lit ''A'' @ [10] @ lit ''S1'' @ [10] @ lit ''Read more: u1'' @ [10, 10]
        @ bullet @ lit ''C'' @ [10] @ lit ''S3'' @ [10] @ lit ''Read more: u3'' @ [10, 10]]
   \<and> map msg_html (smtp_messages (fst (send_email ex_cfg ex_env
       [ex_entry ''A'' ''S1'' ''u1'', ex_entry ''C'' ''S3'' ''u3''])))
     = [lit ''<html><body><h2>Here is your daily news summary:</h2><ul>''
        @ lit ''<li><strong>A</strong><br><p>S1</p><a href='' @ [39] @ lit ''u1'' @ [39]
        @ lit ''>Read more</a></li><br>''
        @ lit ''<li><strong>C</strong><br><p>S3</p><a href='' @ [39] @ lit ''u3'' @ [39]
        @ lit ''>Read more</a></li><br>''
        @ lit ''</ul></body></html>'']
   \<and> subseq [(PStr (lit ''A''), PStr (lit ''u1''))]
        [(PStr (lit ''A''), PStr (lit ''u1'')), (PStr (lit ''B''), PStr (lit ''u2''))]"
proof -
  note inst = bodies_follow_input_order [where cfg = ex_cfg and env = ex_env
      and es = "[ex_entry ''A'' ''S1'' ''u1'', ex_entry ''C'' ''S3'' ''u3'']"
      and items = ex_items and cl = "Some OpenAI_client"]
  have h: "snd (fetch_news ex_cfg ex_env NEWS_TOPIC MAX_ARTICLES) = Inr (PList ex_items)
           \<and> (\<forall>a\<in>set ex_items. is_stub a)"
    by (simp add: ex_fetch) (simp add: ex_items_def ex_stub_is_stub)
  have m: "[ex_entry ''A'' ''S1'' ''u1'']
           \<in> set (sender_calls (fst (main ex_cfg ex_env (Some OpenAI_client))))"
    by (simp add: ex_main_sender)
  from inst h m
  have "subseq (map (\<lambda>e. (title e, url e)) [ex_entry ''A'' ''S1'' ''u1''])
          (map (\<lambda>a. (stub_field ''title'' a, stub_field ''url'' a)) ex_items)"
    by blast
  then have s: "subseq [(PStr (lit ''A''), PStr (lit ''u1''))]
        [(PStr (lit ''A''), PStr (lit ''u1'')), (PStr (lit ''B''), PStr (lit ''u2''))]"
    by (simp add: ex_items_def ex_stub_field ex_entry_def)
  from inst
  have t: "map msg_text (smtp_messages (fst (send_email ex_cfg ex_env
               [ex_entry ''A'' ''S1'' ''u1'', ex_entry ''C'' ''S3'' ''u3''])))
        = [text_header @ concat (map (text_item (str_other ex_env))
               [ex_entry ''A'' ''S1'' ''u1'', ex_entry ''C'' ''S3'' ''u3''])]"
    and h: "map msg_html (smtp_messages (fst (send_email ex_cfg ex_env
               [ex_entry ''A'' ''S1'' ''u1'', ex_entry ''C'' ''S3'' ''u3''])))
        = [html_header @ concat (map (html_item (str_other ex_env))
               [ex_entry ''A'' ''S1'' ''u1'', ex_entry ''C'' ''S3'' ''u3'']) @ html_footer]"
    by blast+
  from t h s show ?thesis
    by (simp add: text_header_def text_item_def html_header_def html_item_def html_footer_def
        ex_entry_def lit_append [symmetric])
qed

section \<open>No escaping in the HTML body\<close>

lemma sublist_concat_member:
  assumes "x \<in> set xs"
  shows "sublist (f x) (pre @ concat (map f xs) @ post)"
proof -
  from assms obtain ys zs where "xs = ys @ x # zs" by (auto simp: in_set_conv_decomp)
  then have "pre @ concat (map f xs) @ post
             = (pre @ concat (map f ys)) @ f x @ (concat (map f zs) @ post)"
    by simp
  then show ?thesis unfolding sublist_def by blast
qed

text \<open>
  Claim C10. For every entry whose title and URL are strings, the HTML body of the
  message contains the entry's list item with the title, the summary and the URL
  inserted character for character, whatever they contain: nothing is escaped.
\<close>

theorem html_not_escaped:
  assumes "e \<in> set es" and "title e = PStr t" and "url e = PStr u"
  shows "\<exists>m. smtp_messages (fst (send_email cfg env es)) = [m]
            \<and> sublist (lit ''<li><strong>'' @ t @ lit ''</strong><br><p>'' @ summary e
                        @ lit ''</p><a href='' @ [39] @ u @ [39]
                        @ lit ''>Read more</a></li><br>'')
                       (msg_html m)"
proof -
  have "html_item (str_other env) e =
          lit ''<li><strong>'' @ t @ lit ''</strong><br><p>'' @ summary e
          @ lit ''</p><a href='' @ [39] @ u @ [39] @ lit ''>Read more</a></li><br>''"
    using assms(2,3) by (simp add: html_item_def)
  with sublist_concat_member [OF assms(1), of "html_item (str_other env)" html_header html_footer]
  show ?thesis by (simp add: send_email_trace)
qed

text \<open>Markup, an ampersand and angle brackets arrive in the HTML body as they are.\<close>

theorem html_not_escaped_witness:
  "\<exists>m. smtp_messages (fst (send_email ex_cfg ex_env
           [ex_entry ''A'' ''S1'' ''u1'',
            ex_entry ''<b>bold</b>'' ''1 < 2 & 3 > 2'' ''http://e.org/?a=1&b=<2>''])) = [m]
       \<and> sublist (lit ''<li><strong><b>bold</b></strong><br><p>1 < 2 & 3 > 2</p><a href=''
                   @ [39] @ lit ''http://e.org/?a=1&b=<2>'' @ [39]
                   @ lit ''>Read more</a></li><br>'')
                  (msg_html m)"
  using html_not_escaped [where cfg = ex_cfg and env = ex_env
      and e = "ex_entry ''<b>bold</b>'' ''1 < 2 & 3 > 2'' ''http://e.org/?a=1&b=<2>''"
      and es = "[ex_entry ''A'' ''S1'' ''u1'',
                 ex_entry ''<b>bold</b>'' ''1 < 2 & 3 > 2'' ''http://e.org/?a=1&b=<2>'']"
      and t = "lit ''<b>bold</b>''" and u = "lit ''http://e.org/?a=1&b=<2>''"]
  by (simp add: ex_entry_def lit_def)

section \<open>Failures of the news search\<close>

text \<open>
  Claim C3 as stated fails on two responses. A body
  that is a JSON array makes \<open>data.get\<close> raise \<open>AttributeError\<close>, which the handler
  of \<open>fetch_news\<close> does not catch. A status outside 400 to 599, here 300, is not an
  error for \<open>raise_for_status\<close>: the articles of the body are returned.
\<close>

theorem fetch_failure_counterexample:
  "snd (fetch_news ex_cfg ex_env_array NEWS_TOPIC MAX_ARTICLES) = Inl AttributeError
   \<and> snd (fetch_news ex_cfg ex_env_300 NEWS_TOPIC MAX_ARTICLES) = Inr (PList ex_items)
   \<and> ex_items \<noteq> []"
  by (simp add: fetch_news_def fetch_try_def ex_env_array_def ex_env_300_def ex_env_def
      ex_stubs_def ex_items_def Let_def)

text \<open>
  Claim C3, amended. When \<open>requests.get\<close> raises a \<open>RequestException\<close>, when the
  status is between 400 and 599, or when decoding the body raises a
  \<open>RequestException\<close> (the \<open>JSONDecodeError\<close> of \<open>requests\<close>), \<open>fetch_news\<close> returns
  the empty list and raises nothing.
\<close>

theorem fetch_failures_give_empty:
  assumes "http_get env (request_url cfg topic n) = r"
    and "r = Get_raises RequestException
         \<or> (\<exists>status body. r = Response status body
               \<and> (400 \<le> status \<and> status < 600 \<or> body = Inl RequestException))"
  shows "snd (fetch_news cfg env topic n) = Inr (PList [])"
  using assms by (auto simp: fetch_news_def fetch_try_def Let_def)

text \<open>No connection, the status 404, and a body that is not JSON.\<close>

theorem fetch_failures_give_empty_witness:
  "snd (fetch_news ex_cfg ex_env_offline NEWS_TOPIC MAX_ARTICLES) = Inr (PList [])
   \<and> snd (fetch_news ex_cfg ex_env_404 NEWS_TOPIC MAX_ARTICLES) = Inr (PList [])
   \<and> snd (fetch_news ex_cfg ex_env_garbled NEWS_TOPIC MAX_ARTICLES) = Inr (PList [])"
proof -
  have a: "snd (fetch_news ex_cfg ex_env_offline NEWS_TOPIC MAX_ARTICLES) = Inr (PList [])"
    by (rule fetch_failures_give_empty [where r = "Get_raises RequestException"])
      (simp_all add: ex_env_offline_def)
  have b: "snd (fetch_news ex_cfg ex_env_404 NEWS_TOPIC MAX_ARTICLES) = Inr (PList [])"
    by (rule fetch_failures_give_empty
        [where r = "Response 404 (Inr (PDict [(lit ''articles'', ex_stubs)]))"])
      (simp_all add: ex_env_404_def)
  have c: "snd (fetch_news ex_cfg ex_env_garbled NEWS_TOPIC MAX_ARTICLES) = Inr (PList [])"
    by (rule fetch_failures_give_empty [where r = "Response 200 (Inl RequestException)"])
      (simp_all add: ex_env_garbled_def)
  from a b c show ?thesis by simp
qed

section \<open>Exceptions that leave main\<close>

text \<open>
  Claim C1 says that every run ends with a normal exit status, also when the body of the
  provider's response is not an object or an article has no title. On those two
  responses the run ends with an uncaught exception and the exit status 1: the
  \<open>AttributeError\<close> of \<open>data.get\<close> passes the handler of \<open>fetch_news\<close>, and the
  \<open>KeyError\<close> of \<open>article['title']\<close> is raised in \<open>main\<close>, which has no handler.
\<close>

theorem malformed_response_is_uncaught:
  "snd (run ex_cfg ex_env_array) = Inl AttributeError
   \<and> exit_status (run ex_cfg ex_env_array) = 1
   \<and> snd (run ex_cfg ex_env_untitled) = Inl KeyError
   \<and> exit_status (run ex_cfg ex_env_untitled) = 1"
  by (simp add: run_def exit_status_def main_def fetch_news_def fetch_try_def Let_def
      ex_env_array_def ex_env_untitled_def ex_env_def loop_body_def lit_def)

text \<open>
  Claim C4 says that every run in which at least one article is fetched and none
  survives summarization exits normally without a call of the Sender. In the run below
  two articles are fetched; the first is too short and is skipped, the second has no
  title. No article survives and the Sender is not called, but \<open>article['title']\<close>
  raises \<open>KeyError\<close> in the loop of \<open>main\<close>: the run ends with an uncaught exception
  and the exit status 1.
\<close>

theorem untitled_article_aborts_run:
  "snd (fetch_news ex_cfg ex_env_late_untitled NEWS_TOPIC MAX_ARTICLES)
     = Inr (PList [ex_stub ''B'' ''u2'', PDict [(lit ''url'', PStr (lit ''u3''))]])
   \<and> summarizer_calls (fst (run ex_cfg ex_env_late_untitled)) = [PStr (lit ''u2'')]
   \<and> sender_calls (fst (run ex_cfg ex_env_late_untitled)) = []
   \<and> snd (run ex_cfg ex_env_late_untitled) = Inl KeyError
   \<and> exit_status (run ex_cfg ex_env_late_untitled) = 1"
  by (simp add: run_def init_client_def exit_status_def main_def fetch_news_def fetch_try_def
      Let_def ex_env_late_untitled_def ex_env_def ex_stub_def loop_body_def
      summarize_article_def summarize_try_def lit_def)

end
